theory Spec2Isabelle
  imports Main "HOL-Library.Sublist" "HOL-Library.AList"
begin

section \<open>Strings of the source language\<close>

text \<open>
  A Python \<open>str\<close> is modelled as a \<open>string\<close>, a list of \<open>char\<close>; a \<open>char\<close> stands for
  a code point below 256. The tables below are those of Python 3 on that range.
\<close>

abbreviation dquote :: char where "dquote \<equiv> CHR 0x22"
abbreviation squote :: char where "squote \<equiv> CHR 0x27"

text \<open>\<open>str.isspace\<close> on one character; also the class \<open>\s\<close> of \<open>re\<close>, and the
  characters removed by \<open>str.strip()\<close> and separating the pieces of \<open>str.split()\<close>.\<close>

definition isspace :: "char \<Rightarrow> bool" where
  "isspace c = (c \<in> set [CHR 0x09, CHR 0x0A, CHR 0x0B, CHR 0x0C, CHR 0x0D,
                           CHR 0x1C, CHR 0x1D, CHR 0x1E, CHR 0x1F, CHR 0x20,
                           CHR 0x85, CHR 0xA0])"

text \<open>The class \<open>\w\<close> of \<open>re\<close>: the alphanumeric characters and the underscore.\<close>

definition isword :: "char \<Rightarrow> bool" where
  "isword c = (let n = (of_char c :: nat) in
     (48 \<le> n \<and> n \<le> 57) \<or> (65 \<le> n \<and> n \<le> 90) \<or> n = 95 \<or> (97 \<le> n \<and> n \<le> 122) \<or>
     n = 170 \<or> n = 178 \<or> n = 179 \<or> n = 181 \<or> n = 185 \<or> n = 186 \<or>
     (188 \<le> n \<and> n \<le> 190) \<or> (192 \<le> n \<and> n \<le> 214) \<or> (216 \<le> n \<and> n \<le> 246) \<or>
     248 \<le> n)"

text \<open>\<open>s.strip()\<close>\<close>

definition strip :: "string \<Rightarrow> string" where
  "strip s = rev (dropWhile isspace (rev (dropWhile isspace s)))"

text \<open>\<open>s.split()\<close>: the maximal runs of characters that are not whitespace.\<close>

function split_ws :: "string \<Rightarrow> string list" where
  "split_ws [] = []"
| "split_ws (c # cs) =
     (if isspace c then split_ws cs
      else (c # takeWhile (\<lambda>x. \<not> isspace x) cs) # split_ws (dropWhile (\<lambda>x. \<not> isspace x) cs))"
  by pat_completeness auto
termination
  by (relation "measure length") (auto simp: less_Suc_eq_le length_dropWhile_le)

text \<open>\<open>s.find(c)\<close> for a one-character \<open>c\<close>: the first index, \<open>None\<close> for Python's \<open>-1\<close>.\<close>

fun find :: "char \<Rightarrow> string \<Rightarrow> nat option" where
  "find c [] = None"
| "find c (x # xs) = (if x = c then Some 0 else map_option Suc (find c xs))"

definition startswith :: "string \<Rightarrow> char \<Rightarrow> bool" where
  "startswith s c = (case s of [] \<Rightarrow> False | x # _ \<Rightarrow> x = c)"

definition endswith :: "string \<Rightarrow> char \<Rightarrow> bool" where
  "endswith s c = (case rev s of [] \<Rightarrow> False | x # _ \<Rightarrow> x = c)"

text \<open>\<open>sep.join(xs)\<close>\<close>

fun join :: "string \<Rightarrow> string list \<Rightarrow> string" where
  "join sep [] = []"
| "join sep [x] = x"
| "join sep (x # y # ys) = x @ sep @ join sep (y # ys)"

text \<open>\<open>s.replace(old, new)\<close>: the occurrences of \<open>old\<close> are found from the left and do
  not overlap; an empty \<open>old\<close> matches before every character and at the end.\<close>

fun replace_ne :: "string \<Rightarrow> string \<Rightarrow> string \<Rightarrow> string" where
  "replace_ne old new [] = []"
| "replace_ne old new (c # cs) =
     (if prefix old (c # cs) then new @ replace_ne old new (drop (length old - 1) cs)
      else c # replace_ne old new cs)"

definition replace :: "string \<Rightarrow> string \<Rightarrow> string \<Rightarrow> string" where
  "replace old new s =
     (if old = [] then new @ concat (map (\<lambda>c. c # new) s) else replace_ne old new s)"

section \<open>The markup tree\<close>

text \<open>
  \<open>SSMLText\<close> and \<open>SSMLTag\<close> of \<open>ssml.py\<close>. The attribute dictionary is an association
  list in insertion order with unique keys; \<open>d[k] = v\<close> is \<open>AList.update k v d\<close>, which
  overwrites in place or appends, as a Python dictionary does.
\<close>

type_synonym attrs = "(string \<times> string) list"

datatype SSMLNode =
    SSMLText (node_text: string)
  | SSMLTag (name: string) (attributes: attrs) (children: "SSMLNode list")

text \<open>The constructor \<open>SSMLTag.__init__\<close> strips the name.\<close>

definition mk_tag :: "string \<Rightarrow> attrs \<Rightarrow> SSMLNode list \<Rightarrow> SSMLNode" where
  "mk_tag n a cs = SSMLTag (strip n) a cs"

text \<open>\<open>tag.children.append(c)\<close>\<close>

definition append_child :: "SSMLNode \<Rightarrow> SSMLNode \<Rightarrow> SSMLNode" where
  "append_child t c = SSMLTag (name t) (attributes t) (children t @ [c])"

text \<open>
  The two \<open>__eq__\<close> methods: same variant, same payload; for tags same name, equal
  dictionaries (same keys with the same values, in any order) and pairwise equal children.
\<close>

fun node_eq :: "SSMLNode \<Rightarrow> SSMLNode \<Rightarrow> bool" where
  "node_eq (SSMLText s) (SSMLText t) = (s = t)"
| "node_eq (SSMLTag n a cs) (SSMLTag m b ds) =
     (n = m \<and> set a = set b \<and> list_all2 node_eq cs ds)"
| "node_eq _ _ = False"

section \<open>Errors\<close>

text \<open>
  Every \<open>raise\<close> of \<open>ssml.py\<close> is one constructor; the message raised is given beside it.
  \<open>IndexError\<close> is what Python raises at \<open>xs[0]\<close> on an empty list.
\<close>

datatype error =
    UnterminatedTag            \<comment> \<open>Missing closing angle bracket\<close>
  | UnmatchedClosingTag        \<comment> \<open>Unmatched closing tag\<close>
  | MismatchedClosingTag       \<comment> \<open>Mismatched closing tag\<close>
  | MultipleTopLevelRoots      \<comment> \<open>Multiple top-level tags\<close>
  | SelfClosingOutsideRoot     \<comment> \<open>Self-closing tag outside of root\<close>
  | TextOutsideRoot            \<comment> \<open>Text outside root tag\<close>
  | UnclosedTags               \<comment> \<open>Unclosed tags remaining\<close>
  | MissingRootOrWrongRootName \<comment> \<open>Root tag must be <speak>\<close>
  | SingleQuotedAttribute      \<comment> \<open>Single-quoted attributes not allowed\<close>
  | MalformedAttribute         \<comment> \<open>Malformed attribute\<close>
  | IndexError                 \<comment> \<open>list index out of range\<close>

text \<open>The error kinds of the specification; its MalformedAttributeSyntax covers the two
  attribute messages, and \<open>IndexError\<close> is none of them.\<close>

definition MalformedAttributeSyntax :: "error \<Rightarrow> bool" where
  "MalformedAttributeSyntax e = (e = SingleQuotedAttribute \<or> e = MalformedAttribute)"

definition spec_error_kind :: "error \<Rightarrow> bool" where
  "spec_error_kind e = (e \<noteq> IndexError)"

section \<open>Escaping\<close>

definition unescapeXMLChars :: "string \<Rightarrow> string" where
  "unescapeXMLChars text =
     replace ''&amp;'' ''&'' (replace ''&gt;'' ''>'' (replace ''&lt;'' ''<'' text))"

definition escapeXMLChars :: "string \<Rightarrow> string" where
  "escapeXMLChars text =
     replace ''>'' ''&gt;'' (replace ''<'' ''&lt;'' (replace ''&'' ''&amp;'' text))"

section \<open>Attributes\<close>

text \<open>
  The pattern \<open>([\w:-]+)\s*=\s*"([^"]*)"\<close> anchored at the start of \<open>s\<close>. No character of
  the key class is whitespace or \<open>=\<close>, no whitespace is \<open>=\<close> or a double quote, and the
  value class excludes the double quote, so every starred part can only take its longest
  run: giving a character back never lets the next part match. The result is the two groups
  and the length of the match.
\<close>

definition iskey :: "char \<Rightarrow> bool" where
  "iskey c = (isword c \<or> c = CHR '':'' \<or> c = CHR ''-'')"

definition match_attr :: "string \<Rightarrow> (string \<times> string \<times> nat) option" where
  "match_attr s =
     (let key = takeWhile iskey s in
      if key = [] then None
      else (case dropWhile isspace (dropWhile iskey s) of
        [] \<Rightarrow> None
      | e # r1 \<Rightarrow>
          if e \<noteq> CHR ''='' then None
          else (case dropWhile isspace r1 of
            [] \<Rightarrow> None
          | q # r2 \<Rightarrow>
              if q \<noteq> dquote then None
              else (case dropWhile (\<lambda>c. c \<noteq> dquote) r2 of
                      [] \<Rightarrow> None
                    | _ # r3 \<Rightarrow>
                        Some (key, takeWhile (\<lambda>c. c \<noteq> dquote) r2, length s - length r3)))))"

text \<open>
  \<open>attr_regex.finditer\<close>: the matches from the left, each search starting where the last
  match ended. An entry is \<open>(start, end, key, value)\<close>; \<open>pos\<close> is the index of the first
  character of the part of the text still to be searched.
\<close>

fun finditer :: "nat \<Rightarrow> string \<Rightarrow> (nat \<times> nat \<times> string \<times> string) list" where
  "finditer pos [] = []"
| "finditer pos (c # cs) =
     (case match_attr (c # cs) of
        None \<Rightarrow> finditer (Suc pos) cs
      | Some (k, v, n) \<Rightarrow> (pos, pos + n, k, v) # finditer (pos + n) (drop (n - 1) cs))"

definition covered_spans :: "(nat \<times> nat \<times> string \<times> string) list \<Rightarrow> nat set" where
  "covered_spans matches = (\<Union>(s, e, k, v) \<in> set matches. {s..<e})"

definition attr_str_of :: "string \<Rightarrow> string \<Rightarrow> string" where
  "attr_str_of tag_name tag_str = strip (drop (length tag_name) tag_str)"

definition uncovered :: "string \<Rightarrow> bool" where
  "uncovered attr_str =
     (\<exists>i < length attr_str. \<not> isspace (attr_str ! i) \<and> i \<notin> covered_spans (finditer 0 attr_str))"

definition parse_attributes :: "string \<Rightarrow> error + attrs" where
  "parse_attributes tag_str =
     (if squote \<in> set tag_str then Inl SingleQuotedAttribute
      else case split_ws (strip tag_str) of
        [] \<Rightarrow> Inl IndexError
      | tag_name # _ \<Rightarrow>
          (let attr_str = attr_str_of tag_name tag_str in
           if attr_str = [] then Inr []
           else if uncovered attr_str then Inl MalformedAttribute
           else Inr (fold (\<lambda>(s, e, k, v) d. AList.update k v d) (finditer 0 attr_str) [])))"

section \<open>The parser\<close>

text \<open>
  The state of the loop of \<open>parseSSML\<close>. The cursor \<open>i\<close> is represented by the unread
  text \<open>ssml[i:]\<close>: the loop reads nothing before \<open>i\<close>. The stack is a list whose head
  is the top, \<open>stack[-1]\<close>.
\<close>

record pstate =
  rest :: string
  stack :: "SSMLNode list"
  root :: "SSMLNode option"
  seen_top_level :: bool

text \<open>\<open>stack[-1].children.append(c)\<close> on a stack that is not empty.\<close>

definition append_to_top :: "SSMLNode list \<Rightarrow> SSMLNode \<Rightarrow> SSMLNode list" where
  "append_to_top st c = append_child (hd st) c # tl st"

text \<open>The branch for a tag; \<open>j\<close> is the index of the first \<open>>\<close> in the unread text, which
  starts with \<open><\<close>.\<close>

definition tag_step :: "pstate \<Rightarrow> nat \<Rightarrow> error + pstate" where
  "tag_step st j =
     (let tag_content = strip (take (j - 1) (drop 1 (rest st)));
          after = drop (j + 1) (rest st) in
      if startswith tag_content (CHR ''/'') then
        (let closing_name = strip (drop 1 tag_content) in
         case stack st of
           [] \<Rightarrow> Inl UnmatchedClosingTag
         | top_tag # stack' \<Rightarrow>
             if name top_tag \<noteq> closing_name then Inl MismatchedClosingTag
             else if stack' \<noteq> [] then
               Inr (st\<lparr>rest := after, stack := append_to_top stack' top_tag\<rparr>)
             else if root st \<noteq> None then Inl MultipleTopLevelRoots
             else Inr (st\<lparr>rest := after, stack := stack', root := Some top_tag,
                          seen_top_level := True\<rparr>))
      else if endswith tag_content (CHR ''/'') then
        (case split_ws (strip (butlast tag_content)) of
           [] \<Rightarrow> Inl IndexError
         | nm # _ \<Rightarrow>
             (case parse_attributes (butlast tag_content) of
                Inl e \<Rightarrow> Inl e
              | Inr attrs \<Rightarrow>
                  if stack st = [] then Inl SelfClosingOutsideRoot
                  else Inr (st\<lparr>rest := after,
                               stack := append_to_top (stack st) (mk_tag nm attrs [])\<rparr>)))
      else
        (case split_ws tag_content of
           [] \<Rightarrow> Inl IndexError
         | nm # _ \<Rightarrow>
             (case parse_attributes tag_content of
                Inl e \<Rightarrow> Inl e
              | Inr attrs \<Rightarrow>
                  if stack st = [] \<and> seen_top_level st then Inl MultipleTopLevelRoots
                  else Inr (st\<lparr>rest := after,
                               stack := mk_tag nm attrs [] # stack st\<rparr>))))"

text \<open>The branch for a text run, on an unread text that does not start with \<open><\<close>.\<close>

definition text_step :: "pstate \<Rightarrow> error + pstate" where
  "text_step st =
     (let j = (case find (CHR ''<'') (rest st) of None \<Rightarrow> length (rest st) | Some j \<Rightarrow> j);
          txt = take j (rest st) in
      if strip txt \<noteq> [] then
        (if stack st = [] then Inl TextOutsideRoot
         else Inr (st\<lparr>rest := drop j (rest st),
                      stack := append_to_top (stack st) (SSMLText (unescapeXMLChars txt))\<rparr>))
      else Inr (st\<lparr>rest := drop j (rest st)\<rparr>))"

text \<open>One iteration of the loop, on an unread text that is not empty.\<close>

definition parse_step :: "pstate \<Rightarrow> error + pstate" where
  "parse_step st =
     (if hd (rest st) = CHR ''<'' then
        (case find (CHR ''>'') (rest st) of
           None \<Rightarrow> Inl UnterminatedTag
         | Some j \<Rightarrow> tag_step st j)
      else text_step st)"

lemma find_Some_less: "find c s = Some j \<Longrightarrow> j < length s"
  by (induction s arbitrary: j) (auto split: if_splits)

lemma find_Some_nth: "find c s = Some j \<Longrightarrow> s ! j = c"
  by (induction s arbitrary: j) (auto split: if_splits)

lemma find_Some_take: "find c s = Some j \<Longrightarrow> c \<notin> set (take j s)"
  by (induction s arbitrary: j) (auto split: if_splits)

lemma find_None_iff: "find c s = None \<longleftrightarrow> c \<notin> set s"
  by (induction s) auto

lemma tag_step_rest:
  "tag_step st j = Inr st' \<Longrightarrow> rest st' = drop (j + 1) (rest st)"
  by (auto simp: tag_step_def Let_def split: if_splits list.splits sum.splits)

lemma text_step_rest:
  assumes "text_step st = Inr st'" "rest st \<noteq> []" "hd (rest st) \<noteq> CHR ''<''"
  shows "length (rest st') < length (rest st)"
proof -
  obtain c cs where r: "rest st = c # cs" and c: "c \<noteq> CHR ''<''"
    using assms(2,3) by (cases "rest st") auto
  define j where "j = (case find (CHR ''<'') (rest st) of None \<Rightarrow> length (rest st) | Some j \<Rightarrow> j)"
  have "0 < j" using r c by (auto simp: j_def split: option.splits)
  moreover have "rest st' = drop j (rest st)"
    using assms(1) by (auto simp: text_step_def j_def Let_def split: if_splits)
  ultimately show ?thesis using r by simp
qed

lemma parse_step_decreases:
  assumes "parse_step st = Inr st'" "rest st \<noteq> []"
  shows "length (rest st') < length (rest st)"
proof (cases "hd (rest st) = CHR ''<''")
  case True
  then obtain j where j: "find (CHR ''>'') (rest st) = Some j" and t: "tag_step st j = Inr st'"
    using assms(1) by (auto simp: parse_step_def split: option.splits)
  show ?thesis using tag_step_rest[OF t] assms(2) by simp
next
  case False
  then show ?thesis using assms text_step_rest by (simp add: parse_step_def)
qed

text \<open>The loop \<open>while i < len(ssml)\<close>.\<close>

function parse_loop :: "pstate \<Rightarrow> error + pstate" where
  "parse_loop st =
     (if rest st = [] then Inr st
      else (case parse_step st of Inl e \<Rightarrow> Inl e | Inr st' \<Rightarrow> parse_loop st'))"
  by pat_completeness auto
termination
  by (relation "measure (\<lambda>st. length (rest st))") (auto simp: parse_step_decreases)

declare parse_loop.simps [simp del]

definition parseSSML :: "string \<Rightarrow> error + SSMLNode" where
  "parseSSML ssml =
     (case parse_loop \<lparr>rest = ssml, stack = [], root = None, seen_top_level = False\<rparr> of
        Inl e \<Rightarrow> Inl e
      | Inr st \<Rightarrow>
          if stack st \<noteq> [] then Inl UnclosedTags
          else (case root st of
                  None \<Rightarrow> Inl MissingRootOrWrongRootName
                | Some r \<Rightarrow>
                    if name r \<noteq> ''speak'' then Inl MissingRootOrWrongRootName else Inr r))"

section \<open>The serializer\<close>

definition render_attr :: "string \<times> string \<Rightarrow> string" where
  "render_attr kv = fst kv @ [CHR ''='', dquote] @ snd kv @ [dquote]"

fun ssmlNodeToText :: "SSMLNode \<Rightarrow> string" where
  "ssmlNodeToText (SSMLText t) = escapeXMLChars t"
| "ssmlNodeToText (SSMLTag n a cs) =
     (let attrs = join '' '' (map render_attr a);
          children = concat (map ssmlNodeToText cs) in
      if children = [] \<and> attrs = [] then ''<'' @ n @ ''/>''
      else if children = [] then ''<'' @ n @ '' '' @ attrs @ ''/>''
      else if attrs \<noteq> [] then ''<'' @ n @ '' '' @ attrs @ ''>'' @ children @ ''</'' @ n @ ''>''
      else ''<'' @ n @ ''>'' @ children @ ''</'' @ n @ ''>'')"

section \<open>Literal inputs\<close>

text \<open>
  Claim C2. Every failure of \<open>parseSSML\<close> should be one of the error kinds of the
  specification. On the input \<open><>\<close> the tag interior is empty, \<open>tag_content.split()[0]\<close>
  is evaluated on an empty list, and the call fails with \<open>IndexError\<close>, which is none of
  those kinds.
\<close>

theorem C2_empty_tag_IndexError:
  "parseSSML ''<>'' = Inl IndexError \<and> \<not> spec_error_kind IndexError"
  by (simp add: spec_error_kind_def) code_simp

text \<open>
  Claim C3, as stated: \<open>parseSSML\<close> on \<open><speak/><speak/>\<close> fails with
  MultipleTopLevelRoots. It does not: the first tag is self-closing and the stack is empty.
\<close>

theorem C3_counterexample:
  "parseSSML ''<speak/><speak/>'' \<noteq> Inl MultipleTopLevelRoots"
  by code_simp

text \<open>
  Claim C3, amended: \<open>parseSSML\<close> on \<open><speak/><speak/>\<close> fails with
  SelfClosingOutsideRoot.
\<close>

theorem C3_self_closing_outside_root:
  "parseSSML ''<speak/><speak/>'' = Inl SelfClosingOutsideRoot"
  by code_simp

text \<open>
  Claim C7. \<open>parseSSML\<close> succeeds on \<open><speak><break/></speak>\<close> and on
  \<open><speak><break></break></speak>\<close>; both results are the root \<open>speak\<close> with one
  child, a tag \<open>break\<close> with no attribute and no child, and they are equal by \<open>__eq__\<close>.
\<close>

theorem C7_self_closing_equivalence:
  "\<exists>t1 t2. parseSSML ''<speak><break/></speak>'' = Inr t1
      \<and> parseSSML ''<speak><break></break></speak>'' = Inr t2
      \<and> node_eq t1 t2
      \<and> t1 = SSMLTag ''speak'' [] [SSMLTag ''break'' [] []]
      \<and> t2 = SSMLTag ''speak'' [] [SSMLTag ''break'' [] []]"
proof -
  have a: "parseSSML ''<speak><break/></speak>'' = Inr (SSMLTag ''speak'' [] [SSMLTag ''break'' [] []])"
    by code_simp
  have b: "parseSSML ''<speak><break></break></speak>''
             = Inr (SSMLTag ''speak'' [] [SSMLTag ''break'' [] []])"
    by code_simp
  show ?thesis using a b by simp
qed

section \<open>Escaping and unescaping\<close>

text \<open>What \<open>escapeXMLChars\<close> writes for one character, and what is left of it after the
  first and after the second replacement of \<open>unescapeXMLChars\<close>.\<close>

definition esc1 :: "char \<Rightarrow> string" where
  "esc1 c = (if c = CHR ''&'' then ''&amp;'' else if c = CHR ''<'' then ''&lt;''
             else if c = CHR ''>'' then ''&gt;'' else [c])"

definition unesc_lt :: "char \<Rightarrow> string" where
  "unesc_lt c = (if c = CHR ''<'' then ''<'' else esc1 c)"

definition unesc_gt :: "char \<Rightarrow> string" where
  "unesc_gt c = (if c = CHR ''>'' then ''>'' else unesc_lt c)"

lemma replace_ne_char:
  "replace_ne [a] new s = concat (map (\<lambda>c. if c = a then new else [c]) s)"
  by (induction s) auto

lemma escapeXMLChars_concat: "escapeXMLChars s = concat (map esc1 s)"
proof -
  have "escapeXMLChars s =
      concat (map (\<lambda>c. if c = CHR ''>'' then ''&gt;'' else [c])
        (concat (map (\<lambda>c. if c = CHR ''<'' then ''&lt;'' else [c])
          (concat (map (\<lambda>c. if c = CHR ''&'' then ''&amp;'' else [c]) s)))))"
    by (simp add: escapeXMLChars_def replace_def replace_ne_char)
  also have "\<dots> = concat (map esc1 s)"
    by (induction s) (auto simp: esc1_def)
  finally show ?thesis .
qed

lemma replace_lt: "replace_ne ''&lt;'' ''<'' (concat (map esc1 s)) = concat (map unesc_lt s)"
  by (induction s) (auto simp: esc1_def unesc_lt_def)

lemma replace_gt: "replace_ne ''&gt;'' ''>'' (concat (map unesc_lt s)) = concat (map unesc_gt s)"
  by (induction s) (auto simp: esc1_def unesc_lt_def unesc_gt_def)

lemma replace_amp: "replace_ne ''&amp;'' ''&'' (concat (map unesc_gt s)) = s"
  by (induction s) (auto simp: esc1_def unesc_lt_def unesc_gt_def)

lemma unescape_escape: "unescapeXMLChars (escapeXMLChars s) = s"
  by (simp add: unescapeXMLChars_def replace_def escapeXMLChars_concat
      replace_lt replace_gt replace_amp)

text \<open>
  Claim C5. For every string \<open>s\<close>, \<open>unescapeXMLChars(escapeXMLChars(s)) == s\<close>: the three
  replacements of the encoder followed by the three of the decoder give the string back.
\<close>

theorem C5_unescape_escape: "unescapeXMLChars (escapeXMLChars s) = s"
  by (simp add: unescapeXMLChars_def replace_def escapeXMLChars_concat
      replace_lt replace_gt replace_amp)

section \<open>Blank and non-blank text\<close>

text \<open>A string is non-blank when \<open>s.strip()\<close> is not empty.\<close>

definition nonblank :: "string \<Rightarrow> bool" where
  "nonblank s = (\<exists>c \<in> set s. \<not> isspace c)"

lemma strip_eq_Nil_iff: "strip s = [] \<longleftrightarrow> \<not> nonblank s"
proof (cases "dropWhile isspace s = []")
  case True
  then have "\<forall>x \<in> set s. isspace x" by (simp add: dropWhile_eq_Nil_conv)
  then show ?thesis unfolding strip_def nonblank_def True by simp
next
  case False
  then have h: "\<not> isspace (hd (dropWhile isspace s))" by (rule hd_dropWhile)
  have m: "hd (dropWhile isspace s) \<in> set (dropWhile isspace s)" using False by simp
  then have "hd (dropWhile isspace s) \<in> set s" by (rule set_dropWhileD)
  then have nb: "nonblank s" using h by (auto simp: nonblank_def)
  have "dropWhile isspace (rev (dropWhile isspace s)) \<noteq> []"
    using m h by (auto simp: dropWhile_eq_Nil_conv)
  then show ?thesis using nb by (simp add: strip_def)
qed

lemma nonblank_replace_ne:
  "nonblank s \<Longrightarrow> nonblank new \<Longrightarrow> nonblank (replace_ne old new s)"
  by (induction old new s rule: replace_ne.induct) (auto simp: nonblank_def)

lemma nonblank_unescape: "nonblank s \<Longrightarrow> nonblank (unescapeXMLChars s)"
proof -
  assume s: "nonblank s"
  have a: "nonblank ''<''" "nonblank ''>''" "nonblank ''&''"
    by (simp_all add: nonblank_def isspace_def)
  show ?thesis
    unfolding unescapeXMLChars_def replace_def using s a
    by (simp add: nonblank_replace_ne)
qed

section \<open>Text nodes of a parse result\<close>

text \<open>Every text node of a tree has a payload with a character that is not whitespace.\<close>

fun texts_nonblank :: "SSMLNode \<Rightarrow> bool" where
  "texts_nonblank (SSMLText t) = nonblank t"
| "texts_nonblank (SSMLTag n a cs) = (\<forall>c \<in> set cs. texts_nonblank c)"

definition is_tag :: "SSMLNode \<Rightarrow> bool" where
  "is_tag x = (case x of SSMLText _ \<Rightarrow> False | SSMLTag _ _ _ \<Rightarrow> True)"

definition tn_inv :: "pstate \<Rightarrow> bool" where
  "tn_inv st = ((\<forall>x \<in> set (stack st). is_tag x \<and> texts_nonblank x)
                \<and> (\<forall>r. root st = Some r \<longrightarrow> texts_nonblank r))"

lemma tn_append_child:
  "is_tag p \<Longrightarrow> texts_nonblank p \<Longrightarrow> texts_nonblank c
   \<Longrightarrow> is_tag (append_child p c) \<and> texts_nonblank (append_child p c)"
  by (cases p) (auto simp: is_tag_def append_child_def)

lemma tn_append_to_top:
  assumes "stk \<noteq> []" "\<forall>x \<in> set stk. is_tag x \<and> texts_nonblank x" "texts_nonblank c"
  shows "\<forall>x \<in> set (append_to_top stk c). is_tag x \<and> texts_nonblank x"
proof -
  obtain p ps where stk: "stk = p # ps" using assms(1) by (cases stk) auto
  show ?thesis using assms(2,3) tn_append_child[of p c]
    by (auto simp: stk append_to_top_def)
qed

lemma tn_mk_tag: "is_tag (mk_tag n a []) \<and> texts_nonblank (mk_tag n a [])"
  by (simp add: mk_tag_def is_tag_def)

text \<open>The outcomes of one iteration that does not raise; \<open>tag_content_of\<close> is the
  stripped interior \<open>ssml[i+1:j].strip()\<close> and \<open>text_end\<close> the end \<open>j\<close> of a text run.\<close>

definition tag_content_of :: "pstate \<Rightarrow> nat \<Rightarrow> string" where
  "tag_content_of st j = strip (take (j - 1) (drop 1 (rest st)))"

lemma tag_step_cases:
  assumes "tag_step st j = Inr st'"
  obtains
    (Close) top_tag stk where
      "startswith (tag_content_of st j) (CHR ''/'')" "stack st = top_tag # stk" "stk \<noteq> []"
      "name top_tag = strip (drop 1 (tag_content_of st j))"
      "st' = st\<lparr>rest := drop (j + 1) (rest st), stack := append_to_top stk top_tag\<rparr>"
  | (CloseRoot) top_tag where
      "startswith (tag_content_of st j) (CHR ''/'')" "stack st = [top_tag]" "root st = None"
      "name top_tag = strip (drop 1 (tag_content_of st j))"
      "st' = st\<lparr>rest := drop (j + 1) (rest st), stack := [], root := Some top_tag,
                    seen_top_level := True\<rparr>"
  | (SelfClose) nm ts a where
      "\<not> startswith (tag_content_of st j) (CHR ''/'')" "endswith (tag_content_of st j) (CHR ''/'')"
      "split_ws (strip (butlast (tag_content_of st j))) = nm # ts"
      "parse_attributes (butlast (tag_content_of st j)) = Inr a" "stack st \<noteq> []"
      "st' = st\<lparr>rest := drop (j + 1) (rest st),
                    stack := append_to_top (stack st) (mk_tag nm a [])\<rparr>"
  | (Open) nm ts a where
      "\<not> startswith (tag_content_of st j) (CHR ''/'')"
      "\<not> endswith (tag_content_of st j) (CHR ''/'')"
      "split_ws (tag_content_of st j) = nm # ts"
      "parse_attributes (tag_content_of st j) = Inr a"
      "\<not> (stack st = [] \<and> seen_top_level st)"
      "st' = st\<lparr>rest := drop (j + 1) (rest st), stack := mk_tag nm a [] # stack st\<rparr>"
proof (cases "startswith (tag_content_of st j) (CHR ''/'')")
  case True
  then show ?thesis
    using assms Close CloseRoot unfolding tag_step_def tag_content_of_def Let_def
    by (simp split: list.splits if_splits)
next
  case ns: False
  show ?thesis
  proof (cases "endswith (tag_content_of st j) (CHR ''/'')")
    case True
    then show ?thesis
      using assms ns SelfClose unfolding tag_step_def tag_content_of_def Let_def
      by (simp split: list.splits sum.splits if_splits)
  next
    case False
    then show ?thesis
      using assms ns Open unfolding tag_step_def tag_content_of_def Let_def
      by (simp split: list.splits sum.splits if_splits)
  qed
qed

definition text_end :: "pstate \<Rightarrow> nat" where
  "text_end st = (case find (CHR ''<'') (rest st) of None \<Rightarrow> length (rest st) | Some j \<Rightarrow> j)"

lemma text_step_cases:
  assumes "text_step st = Inr st'"
  obtains
    (Text) "nonblank (take (text_end st) (rest st))" "stack st \<noteq> []"
      "st' = st\<lparr>rest := drop (text_end st) (rest st),
                    stack := append_to_top (stack st)
                      (SSMLText (unescapeXMLChars (take (text_end st) (rest st))))\<rparr>"
  | (Blank) "\<not> nonblank (take (text_end st) (rest st))"
      "st' = st\<lparr>rest := drop (text_end st) (rest st)\<rparr>"
  using assms unfolding text_step_def text_end_def Let_def strip_eq_Nil_iff
  by (simp split: if_splits)

lemma parse_loop_invariant:
  assumes "parse_loop st = Inr st'" "I st"
    and step: "\<And>s s'. I s \<Longrightarrow> rest s \<noteq> [] \<Longrightarrow> parse_step s = Inr s' \<Longrightarrow> I s'"
  shows "I st' \<and> rest st' = []"
  using assms(1,2)
proof (induction st rule: parse_loop.induct)
  case (1 st)
  show ?case
  proof (cases "rest st = []")
    case True
    then show ?thesis using "1.prems" by (simp add: parse_loop.simps)
  next
    case False
    then obtain s1 where s1: "parse_step st = Inr s1" and l: "parse_loop s1 = Inr st'"
      using "1.prems"(1) by (subst (asm) parse_loop.simps) (simp split: sum.splits)
    have "I s1" using step[OF "1.prems"(2) False s1] .
    then show ?thesis using "1.IH"[OF False s1 l] by simp
  qed
qed

lemma tn_tag_step:
  assumes "tag_step st j = Inr st'" "tn_inv st"
  shows "tn_inv st'"
  using assms(1)
proof (cases rule: tag_step_cases)
  case (Close top_tag stk)
  have "\<forall>x \<in> set (append_to_top stk top_tag). is_tag x \<and> texts_nonblank x"
    using assms(2) Close(2,3) by (intro tn_append_to_top) (auto simp: tn_inv_def)
  then show ?thesis using assms(2) by (simp add: Close(5) tn_inv_def)
next
  case (CloseRoot top_tag)
  then show ?thesis using assms(2) by (simp add: CloseRoot(2,5) tn_inv_def)
next
  case (SelfClose nm ts a)
  have "\<forall>x \<in> set (append_to_top (stack st) (mk_tag nm a [])). is_tag x \<and> texts_nonblank x"
    using assms(2) SelfClose(5) tn_mk_tag[of nm a]
    by (intro tn_append_to_top) (auto simp: tn_inv_def)
  then show ?thesis using assms(2) by (simp add: SelfClose(6) tn_inv_def)
next
  case (Open nm ts a)
  show ?thesis using assms(2) tn_mk_tag[of nm a] by (simp add: Open(6) tn_inv_def)
qed

lemma tn_text_step:
  assumes "text_step st = Inr st'" "tn_inv st"
  shows "tn_inv st'"
  using assms(1)
proof (cases rule: text_step_cases)
  case Text
  have "\<forall>x \<in> set (append_to_top (stack st)
          (SSMLText (unescapeXMLChars (take (text_end st) (rest st))))). is_tag x \<and> texts_nonblank x"
    using assms(2) Text(1,2) nonblank_unescape
    by (intro tn_append_to_top) (auto simp: tn_inv_def)
  then show ?thesis using assms(2) by (simp add: Text(3) tn_inv_def)
next
  case Blank
  then show ?thesis using assms(2) by (simp add: tn_inv_def)
qed

lemma tn_parse_step: "tn_inv st \<Longrightarrow> parse_step st = Inr st' \<Longrightarrow> tn_inv st'"
  by (auto simp: parse_step_def split: if_splits option.splits intro: tn_tag_step tn_text_step)

text \<open>
  Claim C9. Every text node anywhere in a tree returned by a successful call of
  \<open>parseSSML\<close> has a payload with at least one character that is not whitespace.
\<close>

theorem C9_texts_nonblank:
  assumes "parseSSML ssml = Inr t"
  shows "texts_nonblank t"
proof -
  let ?s0 = "\<lparr>rest = ssml, stack = [], root = None, seen_top_level = False\<rparr>"
  obtain st where l: "parse_loop ?s0 = Inr st" and r: "root st = Some t"
    using assms by (auto simp: parseSSML_def split: sum.splits if_splits option.splits)
  have "tn_inv ?s0" by (simp add: tn_inv_def)
  then have "tn_inv st"
    using parse_loop_invariant[OF l, of tn_inv] tn_parse_step by blast
  then show ?thesis using r by (simp add: tn_inv_def)
qed

text \<open>The claim at the input \<open><speak>hi <b/> </speak>\<close>, whose last text run is blank.\<close>

theorem C9_witness:
  "parseSSML ''<speak>hi <b/> </speak>'' = Inr (SSMLTag ''speak'' [] [SSMLText ''hi '', SSMLTag ''b'' [] []])
   \<and> texts_nonblank (SSMLTag ''speak'' [] [SSMLText ''hi '', SSMLTag ''b'' [] []])"
proof -
  have a: "parseSSML ''<speak>hi <b/> </speak>''
      = Inr (SSMLTag ''speak'' [] [SSMLText ''hi '', SSMLTag ''b'' [] []])"
    by code_simp
  show ?thesis using a C9_texts_nonblank[OF a] by simp
qed

end
